theory Spec2Isabelle
  imports Main "HOL-Library.Sublist"
begin

section \<open>Python strings\<close>

text \<open>
  A Python \<open>str\<close> is modelled as a \<open>string\<close>; a character stands for the code point of
  the same number (U+0000 to U+00FF). The string methods below are the ones
  \<open>bw2op_totp.py\<close> calls, restricted to that range.
\<close>

definition isspace :: "char \<Rightarrow> bool" where
  \<comment> \<open>\<open>str.isspace\<close> on one code point: TAB..CR, FS..US, SPACE, NEL, NBSP.\<close>
  "isspace c = (let n = (of_char c :: nat) in
      (9 \<le> n \<and> n \<le> 13) \<or> (28 \<le> n \<and> n \<le> 32) \<or> n = 133 \<or> n = 160)"

definition lower_char :: "char \<Rightarrow> char" where
  \<comment> \<open>\<open>str.lower\<close> on one code point: A..Z and the Latin-1 capitals.\<close>
  "lower_char c = (let n = (of_char c :: nat) in
      if (65 \<le> n \<and> n \<le> 90) \<or> (192 \<le> n \<and> n \<le> 214) \<or> (216 \<le> n \<and> n \<le> 222)
      then char_of (n + 32) else c)"

definition py_lower :: "string \<Rightarrow> string" where
  "py_lower s = map lower_char s"

definition py_strip :: "string \<Rightarrow> string" where
  \<comment> \<open>\<open>s.strip()\<close>: leading and trailing whitespace removed.\<close>
  "py_strip s = rev (dropWhile isspace (rev (dropWhile isspace s)))"

definition py_replace :: "char \<Rightarrow> string \<Rightarrow> string \<Rightarrow> string" where
  \<comment> \<open>\<open>s.replace(old, new)\<close> for a one-character \<open>old\<close>.\<close>
  "py_replace old new s = concat (map (\<lambda>c. if c = old then new else [c]) s)"

fun py_in :: "string \<Rightarrow> string \<Rightarrow> bool" where
  \<comment> \<open>\<open>needle in hay\<close> on strings.\<close>
  "py_in needle [] = (needle = [])"
| "py_in needle (c # hay) = (prefix needle (c # hay) \<or> py_in needle hay)"

definition fmt :: "string option \<Rightarrow> string" where
  \<comment> \<open>How an f-string shows a value that is a \<open>str\<close> or \<open>None\<close>.\<close>
  "fmt v = (case v of None \<Rightarrow> ''None'' | Some s \<Rightarrow> s)"

subsection \<open>\<open>urllib.parse.quote\<close> with its default arguments\<close>

definition always_safe :: "char \<Rightarrow> bool" where
  "always_safe c =
     (c \<in> set ''ABCDEFGHIJKLMNOPQRSTUVWXYZabcdefghijklmnopqrstuvwxyz0123456789_.-~'')"

definition hex_digit :: "nat \<Rightarrow> char" where
  "hex_digit n = ''0123456789ABCDEF'' ! (n mod 16)"

definition pct_byte :: "nat \<Rightarrow> string" where
  "pct_byte b = [CHR ''%'', hex_digit (b div 16), hex_digit (b mod 16)]"

definition utf8_encode :: "nat \<Rightarrow> nat list" where
  \<comment> \<open>The UTF-8 bytes of a code point below U+0100.\<close>
  "utf8_encode n = (if n < 128 then [n] else [192 + n div 64, 128 + n mod 64])"

definition quote_char :: "char \<Rightarrow> string" where
  "quote_char c = (if always_safe c \<or> c = CHR ''/'' then [c]
                   else concat (map pct_byte (utf8_encode (of_char c))))"

definition quote :: "string \<Rightarrow> string" where
  "quote s = concat (map quote_char s)"

section \<open>The otpauth URL\<close>

definition construct_otp_url :: "string \<Rightarrow> string \<Rightarrow> string" where
  "construct_otp_url secret0 label =
     (let secret = py_strip secret0 in
      if prefix ''otpauth://'' (py_lower secret) then secret
      else
        let clean_secret = py_replace (CHR ''-'') [] (py_replace (CHR '' '') [] secret);
            encoded_label = quote label
        in ''otpauth://totp/'' @ encoded_label @ ''?secret='' @ clean_secret
             @ ''&issuer=BitwardenMigration'')"

section \<open>The 1Password lookup and the matcher\<close>

record candidate =
  cand_id :: string
  cand_username :: string

type_synonym op_lookup = "string \<rightharpoonup> candidate list"

record op_item =
  op_title :: string
  op_id :: string
  additional_information :: "string option"

definition add_item :: "op_lookup \<Rightarrow> op_item \<Rightarrow> op_lookup" where
  \<comment> \<open>One turn of the loop of \<open>get_op_items\<close>.\<close>
  "add_item lookup item =
     (let title = op_title item;
          username = (case additional_information item of None \<Rightarrow> [] | Some u \<Rightarrow> u);
          existing = (case lookup title of None \<Rightarrow> [] | Some cs \<Rightarrow> cs)
      in lookup(title \<mapsto> existing @ [\<lparr>cand_id = op_id item, cand_username = username\<rparr>]))"

definition build_lookup :: "op_item list \<Rightarrow> op_lookup" where
  "build_lookup items = foldl add_item Map.empty items"

fun scan_candidates :: "candidate list \<Rightarrow> string \<Rightarrow> string option" where
  "scan_candidates [] target_user = None"
| "scan_candidates (candidate # rest) target_user =
     (if cand_username candidate = target_user then Some (cand_id candidate)
      else scan_candidates rest target_user)"

definition find_match :: "string \<Rightarrow> string option \<Rightarrow> op_lookup \<Rightarrow> string option" where
  "find_match title bw_username op_lookup =
     (case op_lookup title of
        None \<Rightarrow> None
      | Some candidates \<Rightarrow>
          let target_user = (case bw_username of
                               None \<Rightarrow> []
                             | Some u \<Rightarrow> if u \<noteq> [] then u else [])
          in scan_candidates candidates target_user)"

section \<open>The external command and the run\<close>

type_synonym command = "string list"

datatype proc_result =
    Completed string
  | CalledProcessError string
  | FileNotFoundError

text \<open>
  \<open>subprocess.run\<close> is a black box: its answer to a command may depend on every command
  issued before it, so it takes that history with the command.
\<close>

type_synonym subprocess = "command list \<Rightarrow> command \<Rightarrow> proc_result"

datatype exn = FileNotFound | EOFError | JSONDecodeError

record bw_login =
  username :: "string option"
  totp :: "string option"

record bw_item =
  name :: string
  login :: "bw_login option"

record run_state =
  found_in_bw :: nat
  matched :: nat
  success :: nat
  fail :: nat
  orphans :: "string list"
  cmds :: "command list"
  out :: "string list"

definition init_state :: "command list \<Rightarrow> run_state" where
  "init_state cs = \<lparr>found_in_bw = 0, matched = 0, success = 0, fail = 0,
                    orphans = [], cmds = cs, out = []\<rparr>"

definition secret_of :: "bw_item \<Rightarrow> string option" where
  \<comment> \<open>\<open>item.get('login') and item['login'].get('totp')\<close>, when it is truthy.\<close>
  "secret_of item =
     (case login item of
        None \<Rightarrow> None
      | Some lg \<Rightarrow> (case totp lg of
                     None \<Rightarrow> None
                   | Some s \<Rightarrow> if s \<noteq> [] then Some s else None))"

definition username_of :: "bw_item \<Rightarrow> string option" where
  \<comment> \<open>\<open>item.get('login', {}).get('username')\<close>\<close>
  "username_of item = (case login item of None \<Rightarrow> None | Some lg \<Rightarrow> username lg)"

definition delete_cmd :: "string \<Rightarrow> command" where
  "delete_cmd i = [''op'', ''item'', ''edit'', i, ''one-time password[delete]'']"

definition update_cmd :: "string \<Rightarrow> string \<Rightarrow> command" where
  "update_cmd i otp_value = [''op'', ''item'', ''edit'', i, ''one-time password[otp]='' @ otp_value]"

definition say :: "string \<Rightarrow> run_state \<Rightarrow> run_state" where
  "say line st = st\<lparr>out := out st @ [line]\<rparr>"

definition who :: "string \<Rightarrow> string option \<Rightarrow> string" where
  "who title bw_username = title @ '' (User: '' @ fmt bw_username @ '')''"

definition process_item ::
  "bool \<Rightarrow> bool \<Rightarrow> subprocess \<Rightarrow> op_lookup \<Rightarrow> bw_item \<Rightarrow> run_state
     \<Rightarrow> (exn \<times> run_state) + run_state" where
  \<comment> \<open>The body of the loop of \<open>main\<close>; an exception it does not catch ends the run.\<close>
  "process_item dry clear_mode run op_lookup item st0 =
     (case secret_of item of
        None \<Rightarrow> Inr st0
      | Some totp_secret \<Rightarrow>
          let st1 = st0\<lparr>found_in_bw := found_in_bw st0 + 1\<rparr>;
              title = name item;
              bw_username = username_of item
          in (case find_match title bw_username op_lookup of
                None \<Rightarrow> Inr (st1\<lparr>orphans := orphans st1 @ [who title bw_username]\<rparr>)
              | Some i \<Rightarrow>
                  if i = [] then Inr (st1\<lparr>orphans := orphans st1 @ [who title bw_username]\<rparr>)
                  else
                    let st2 = st1\<lparr>matched := matched st1 + 1\<rparr> in
                    if clear_mode then
                      if dry then
                        Inr (say (''    [DRY RUN] Would DELETE TOTP for: '' @ who title bw_username) st2)
                      else
                        let st3 = say (''    [LIVE] Deleting TOTP for: '' @ who title bw_username) st2;
                            st4 = st3\<lparr>cmds := cmds st3 @ [delete_cmd i]\<rparr>
                        in (case run (cmds st3) (delete_cmd i) of
                              Completed _ \<Rightarrow> Inr (st4\<lparr>success := success st4 + 1\<rparr>)
                            | CalledProcessError err \<Rightarrow>
                                if py_in ''field not found'' err then
                                  Inr (say (''    [INFO] Field already gone for: '' @ title) st4)
                                else
                                  let st5 = say (''    [FAIL] Could not delete '' @ title @ '': ''
                                                   @ py_strip err) st4
                                  in Inr (st5\<lparr>fail := fail st5 + 1\<rparr>)
                            | FileNotFoundError \<Rightarrow> Inl (FileNotFound, st4))
                    else
                      let otp_value = construct_otp_url totp_secret title in
                      if dry then
                        Inr (say (''    [DRY RUN] Would update: '' @ who title bw_username) st2)
                      else
                        let st3 = say (''    [LIVE] Updating: '' @ who title bw_username) st2;
                            st4 = st3\<lparr>cmds := cmds st3 @ [update_cmd i otp_value]\<rparr>
                        in (case run (cmds st3) (update_cmd i otp_value) of
                              Completed _ \<Rightarrow> Inr (st4\<lparr>success := success st4 + 1\<rparr>)
                            | CalledProcessError err \<Rightarrow>
                                let st5 = say (''    [FAIL] Could not update '' @ title @ '': ''
                                                 @ py_strip err) st4
                                in Inr (st5\<lparr>fail := fail st5 + 1\<rparr>)
                            | FileNotFoundError \<Rightarrow> Inl (FileNotFound, st4))))"

fun run_items ::
  "bool \<Rightarrow> bool \<Rightarrow> subprocess \<Rightarrow> op_lookup \<Rightarrow> bw_item list \<Rightarrow> run_state
     \<Rightarrow> (exn \<times> run_state) + run_state" where
  "run_items dry clear_mode run op_lookup [] st = Inr st"
| "run_items dry clear_mode run op_lookup (item # rest) st =
     (case process_item dry clear_mode run op_lookup item st of
        Inl e \<Rightarrow> Inl e
      | Inr st' \<Rightarrow> run_items dry clear_mode run op_lookup rest st')"

definition last_state :: "(exn \<times> run_state) + run_state \<Rightarrow> run_state" where
  \<comment> \<open>The state when the loop stopped, by its end or by an exception.\<close>
  "last_state r = (case r of Inl (_, st) \<Rightarrow> st | Inr st \<Rightarrow> st)"

section \<open>The program\<close>

record args =
  file_path :: "string option"
  dry_run :: bool
  clear :: bool
  license :: bool

record env =
  path_exists :: "string \<Rightarrow> bool"
  stdin_line :: "string option"
  subprocess_run :: subprocess
  json_loads :: "string \<Rightarrow> op_item list option"
  load_export :: "string \<Rightarrow> bw_item list option"

datatype outcome = Exit nat | Uncaught exn | Returned

definition OP_VAULT_NAME :: string where
  "OP_VAULT_NAME = ''Private''"

definition list_cmd :: "string \<Rightarrow> command" where
  "list_cmd vault_name = [''op'', ''item'', ''list'', ''--vault'', vault_name, ''--format'', ''json'']"

definition get_op_items :: "string \<Rightarrow> env \<Rightarrow> (outcome + op_lookup) \<times> command list" where
  "get_op_items vault_name e =
     (case subprocess_run e [] [''op'', ''--version''] of
        FileNotFoundError \<Rightarrow> (Inl (Exit 1), [[''op'', ''--version'']])
      | CalledProcessError err \<Rightarrow> (Inl (Exit 1), [[''op'', ''--version'']])
      | Completed _ \<Rightarrow>
          let issued = [[''op'', ''--version''], list_cmd vault_name] in
          (case subprocess_run e [[''op'', ''--version'']] (list_cmd vault_name) of
             FileNotFoundError \<Rightarrow> (Inl (Exit 1), issued)
           | CalledProcessError err \<Rightarrow> (Inl (Exit 1), issued)
           | Completed stdout \<Rightarrow>
               (case json_loads e stdout of
                  None \<Rightarrow> (Inl (Uncaught JSONDecodeError), issued)
                | Some items \<Rightarrow> (Inr (build_lookup items), issued))))"

definition migrate :: "args \<Rightarrow> env \<Rightarrow> string \<Rightarrow> outcome \<times> run_state" where
  \<comment> \<open>\<open>main\<close> from "1. Load Data" on.\<close>
  "migrate a e path =
     (case get_op_items OP_VAULT_NAME e of
        (Inl stop, issued) \<Rightarrow> (stop, init_state issued)
      | (Inr op_lookup, issued) \<Rightarrow>
          (case load_export e path of
             None \<Rightarrow> (Exit 1, init_state issued)
           | Some items_processed \<Rightarrow>
               (case run_items (dry_run a) (clear a) (subprocess_run e) op_lookup
                       items_processed (init_state issued) of
                  Inl (x, st) \<Rightarrow> (Uncaught x, st)
                | Inr st \<Rightarrow> (Returned, st))))"

definition main :: "args \<Rightarrow> env \<Rightarrow> outcome \<times> run_state" where
  "main a e =
     (if license a then (Exit 0, init_state [])
      else case file_path a of
        None \<Rightarrow> (Exit 1, init_state [])
      | Some path \<Rightarrow>
          if path = [] then (Exit 1, init_state [])
          else if \<not> path_exists e path then (Exit 1, init_state [])
          else if \<not> dry_run a then
            (case stdin_line e of
               None \<Rightarrow> (Uncaught EOFError, init_state [])
             | Some confirm \<Rightarrow>
                 if py_lower confirm \<noteq> ''yes'' then (Exit 0, init_state [])
                 else migrate a e path)
          else migrate a e path)"

section \<open>Definitions used to state the properties\<close>

definition normalized :: "string option \<Rightarrow> string" where
  \<comment> \<open>Username normalisation as the specification words it: absent becomes the empty string.\<close>
  "normalized u = (case u of None \<Rightarrow> [] | Some s \<Rightarrow> s)"

definition vault3 :: op_lookup where
  "vault3 = [''Example'' \<mapsto> [\<lparr>cand_id = ''X0'', cand_username = ''bob''\<rparr>,
                               \<lparr>cand_id = ''X1'', cand_username = ''alice''\<rparr>,
                               \<lparr>cand_id = ''X2'', cand_username = ''alice''\<rparr>]]"

definition ids_nonempty :: "op_lookup \<Rightarrow> bool" where
  "ids_nonempty lk = (\<forall>title cs. lk title = Some cs \<longrightarrow> (\<forall>c\<in>set cs. cand_id c \<noteq> []))"

definition has_secret :: "bw_item \<Rightarrow> bool" where
  "has_secret item = (secret_of item \<noteq> None)"

definition has_match :: "op_lookup \<Rightarrow> bw_item \<Rightarrow> bool" where
  "has_match lk item = (find_match (name item) (username_of item) lk \<noteq> None)"

text \<open>
  Stand-ins for the outside world, for running the program on concrete inputs: a command
  line tool that always succeeds, one that always fails with a given error text, small
  vaults, export items, and an operator who types a given answer.
\<close>

definition op_succeeds :: subprocess where
  "op_succeeds history cmd = Completed []"

definition op_fails :: "string \<Rightarrow> subprocess" where
  "op_fails err history cmd = CalledProcessError err"

definition vault1 :: op_lookup where
  "vault1 = [''Example'' \<mapsto> [\<lparr>cand_id = ''X1'', cand_username = ''alice''\<rparr>]]"


definition alice_item :: bw_item where
  "alice_item = \<lparr>name = ''Example'',
                 login = Some \<lparr>username = Some ''alice'', totp = Some ''ABCD EFGH-1234''\<rparr>\<rparr>"

definition bob_item :: bw_item where
  "bob_item = \<lparr>name = ''Example'',
               login = Some \<lparr>username = Some ''bob'', totp = Some ''JBSWY3DP''\<rparr>\<rparr>"

definition note_item :: bw_item where
  "note_item = \<lparr>name = ''A note'', login = None\<rparr>"

definition plain_item :: bw_item where
  "plain_item = \<lparr>name = ''Example'', login = Some \<lparr>username = Some ''alice'', totp = None\<rparr>\<rparr>"

definition blank_item :: bw_item where
  "blank_item = \<lparr>name = ''Example'', login = Some \<lparr>username = Some ''alice'', totp = Some []\<rparr>\<rparr>"

definition every_path :: "string \<Rightarrow> bool" where
  "every_path p = True"

definition vault1_json :: "string \<Rightarrow> op_item list option" where
  "vault1_json stdout =
     Some [\<lparr>op_title = ''Example'', op_id = ''X1'', additional_information = Some ''alice''\<rparr>]"

definition export1 :: "string \<Rightarrow> bw_item list option" where
  "export1 path = Some [alice_item]"

definition operator_types :: "string \<Rightarrow> env" where
  "operator_types answer = \<lparr>path_exists = every_path, stdin_line = Some answer,
     subprocess_run = op_succeeds, json_loads = vault1_json, load_export = export1\<rparr>"

definition live_update :: args where
  "live_update = \<lparr>file_path = Some ''export.json'', dry_run = False, clear = False,
                   license = False\<rparr>"




section \<open>Properties of the string functions\<close>

lemma strip_fix:
  assumes "s = [] \<or> (\<not> isspace (hd s) \<and> \<not> isspace (last s))"
  shows "py_strip s = s"
proof (cases "s = []")
  case True
  then show ?thesis by (simp add: py_strip_def)
next
  case False
  with assms have h: "\<not> isspace (hd s)" and l: "\<not> isspace (last s)" by auto
  have 1: "dropWhile isspace s = s" using h by (simp add: dropWhile_eq_self_iff)
  have "hd (rev s) = last s" using False by (simp add: hd_rev)
  then have 2: "dropWhile isspace (rev s) = rev s" using l
    by (simp add: dropWhile_eq_self_iff)
  show ?thesis by (simp add: py_strip_def 1 2)
qed

lemma strip_ends:
  "py_strip s = [] \<or> (\<not> isspace (hd (py_strip s)) \<and> \<not> isspace (last (py_strip s)))"
proof (cases "py_strip s = []")
  case True
  then show ?thesis by simp
next
  case False
  define t where "t = dropWhile isspace s"
  define u where "u = dropWhile isspace (rev t)"
  have ps: "py_strip s = rev u" by (simp add: py_strip_def t_def u_def)
  with False have une: "u \<noteq> []" by simp
  then have hu: "\<not> isspace (hd u)" unfolding u_def by (rule hd_dropWhile)
  from une have tne: "t \<noteq> []" unfolding u_def by auto
  then have ht: "\<not> isspace (hd t)" unfolding t_def by (rule hd_dropWhile)
  from une obtain x where "x \<in> set (rev t)" "\<not> isspace x" unfolding u_def by auto
  then have "last u = last (rev t)" unfolding u_def by (rule dropWhile_last)
  also have "\<dots> = hd t" using tne by (simp add: last_rev)
  finally have lu: "\<not> isspace (last u)" using ht by simp
  have "hd (rev u) = last u" "last (rev u) = hd u" using une by (simp_all add: hd_rev last_rev)
  with hu lu ps show ?thesis by simp
qed

lemma strip_idem: "py_strip (py_strip s) = py_strip s"
  by (rule strip_fix) (rule strip_ends)

lemma lower_scheme: "py_lower ''otpauth://'' = ''otpauth://''"
  by code_simp

lemma built_url_fixed:
  "py_strip (''otpauth://totp/'' @ x @ ''&issuer=BitwardenMigration'')
     = ''otpauth://totp/'' @ x @ ''&issuer=BitwardenMigration''"
  by (rule strip_fix) (simp add: isspace_def)

lemma built_url_scheme: "prefix ''otpauth://'' (py_lower (''otpauth://totp/'' @ x))"
proof -
  have "py_lower (''otpauth://totp/'' @ x) = py_lower ''otpauth://'' @ py_lower (''totp/'' @ x)"
    by (simp add: py_lower_def)
  then show ?thesis by (simp add: lower_scheme)
qed

lemma replace_is_filter: "py_replace old [] s = filter (\<lambda>c. c \<noteq> old) s"
  by (induction s) (simp_all add: py_replace_def)

lemma py_in_iff: "py_in needle hay \<longleftrightarrow> (\<exists>p q. hay = p @ needle @ q)"
proof (induction hay)
  case Nil
  then show ?case by auto
next
  case (Cons c hay)
  show ?case
  proof
    assume "py_in needle (c # hay)"
    then consider "prefix needle (c # hay)" | "py_in needle hay" by auto
    then show "\<exists>p q. c # hay = p @ needle @ q"
    proof cases
      case 1
      then obtain q where "c # hay = needle @ q" by (auto simp: prefix_def)
      then have "c # hay = [] @ needle @ q" by simp
      then show ?thesis by blast
    next
      case 2
      with Cons.IH obtain p q where "hay = p @ needle @ q" by blast
      then have "c # hay = (c # p) @ needle @ q" by simp
      then show ?thesis by blast
    qed
  next
    assume "\<exists>p q. c # hay = p @ needle @ q"
    then obtain p q where e: "c # hay = p @ needle @ q" by blast
    show "py_in needle (c # hay)"
    proof (cases p)
      case Nil
      with e have "prefix needle (c # hay)" by (simp add: prefix_def)
      then show ?thesis by simp
    next
      case (Cons d p')
      with e have "hay = p' @ needle @ q" by simp
      with Cons.IH have "py_in needle hay" by blast
      then show ?thesis by simp
    qed
  qed
qed

section \<open>The matcher\<close>

lemma target_user_normalized:
  "(case u of None \<Rightarrow> [] | Some s \<Rightarrow> if s \<noteq> [] then s else []) = normalized u"
  by (cases u) (simp_all add: normalized_def)

lemma scan_none:
  "(\<forall>c\<in>set cs. cand_username c \<noteq> t) \<Longrightarrow> scan_candidates cs t = None"
  by (induction cs) simp_all

lemma scan_first:
  "i < length cs \<Longrightarrow> cand_username (cs ! i) = t \<Longrightarrow> (\<forall>j<i. cand_username (cs ! j) \<noteq> t)
     \<Longrightarrow> scan_candidates cs t = Some (cand_id (cs ! i))"
proof (induction cs arbitrary: i)
  case Nil
  then show ?case by simp
next
  case (Cons c cs)
  show ?case
  proof (cases i)
    case 0
    with Cons.prems show ?thesis by simp
  next
    case (Suc k)
    with Cons.prems have "cand_username c \<noteq> t" by auto
    moreover have "scan_candidates cs t = Some (cand_id (cs ! k))"
    proof (rule Cons.IH)
      show "k < length cs" using Cons.prems Suc by simp
      show "cand_username (cs ! k) = t" using Cons.prems Suc by simp
      show "\<forall>j<k. cand_username (cs ! j) \<noteq> t"
      proof (intro allI impI)
        fix j assume "j < k"
        then have "Suc j < i" using Suc by simp
        with Cons.prems(3) have "cand_username ((c # cs) ! Suc j) \<noteq> t" by blast
        then show "cand_username (cs ! j) \<noteq> t" by simp
      qed
    qed
    ultimately show ?thesis using Suc by simp
  qed
qed

text \<open>
  C1. \<open>find_match\<close> returns \<open>None\<close> for a title that is not in the lookup. For a title that
  is there, with the input username normalised (absent becomes the empty string), it returns
  the identifier of the first candidate, in the order of the lookup, whose stored username
  equals the normalised input, and \<open>None\<close> when no candidate's username equals it. Equality
  of strings is exact, so it is case-sensitive.
\<close>

theorem find_match_first_exact:
  "(op_lookup title = None \<longrightarrow> find_match title u op_lookup = None) \<and>
   (\<forall>cs. op_lookup title = Some cs \<longrightarrow>
      ((\<forall>c\<in>set cs. cand_username c \<noteq> normalized u) \<longrightarrow> find_match title u op_lookup = None) \<and>
      (\<forall>i<length cs. cand_username (cs ! i) = normalized u
                       \<and> (\<forall>j<i. cand_username (cs ! j) \<noteq> normalized u)
           \<longrightarrow> find_match title u op_lookup = Some (cand_id (cs ! i))))"
proof (intro conjI allI impI)
  assume "op_lookup title = None"
  then show "find_match title u op_lookup = None" by (simp add: find_match_def)
next
  fix cs
  assume l: "op_lookup title = Some cs" and n: "\<forall>c\<in>set cs. cand_username c \<noteq> normalized u"
  have "find_match title u op_lookup = scan_candidates cs (normalized u)"
    using l by (simp add: find_match_def target_user_normalized)
  with n show "find_match title u op_lookup = None" by (simp add: scan_none)
next
  fix cs i
  assume l: "op_lookup title = Some cs" and i: "i < length cs"
    and h: "cand_username (cs ! i) = normalized u \<and> (\<forall>j<i. cand_username (cs ! j) \<noteq> normalized u)"
  have "find_match title u op_lookup = scan_candidates cs (normalized u)"
    using l by (simp add: find_match_def target_user_normalized)
  with i h show "find_match title u op_lookup = Some (cand_id (cs ! i))"
    by (simp add: scan_first)
qed

theorem find_match_first_exact_witness:
  "vault3 ''Other'' = None \<and> find_match ''Other'' (Some ''alice'') vault3 = None
   \<and> find_match ''Example'' (Some ''Alice'') vault3 = None
   \<and> find_match ''Example'' (Some ''alice'') vault3 = Some ''X1''"
proof -
  note t = find_match_first_exact [of vault3]
  have a: "vault3 ''Other'' = None" by (simp add: vault3_def)
  have 1: "find_match ''Other'' (Some ''alice'') vault3 = None"
    using t [of "''Other''" "Some ''alice''"] a by simp
  have 2: "find_match ''Example'' (Some ''Alice'') vault3 = None"
    using t [of "''Example''" "Some ''Alice''"] by (simp add: vault3_def normalized_def)
  have 3: "find_match ''Example'' (Some ''alice'') vault3 = Some ''X1''"
  proof -
    let ?cs = "[\<lparr>cand_id = ''X0'', cand_username = ''bob''\<rparr>,
                \<lparr>cand_id = ''X1'', cand_username = ''alice''\<rparr>,
                \<lparr>cand_id = ''X2'', cand_username = ''alice''\<rparr>]"
    have l: "vault3 ''Example'' = Some ?cs" by (simp add: vault3_def)
    have i: "1 < length ?cs" by simp
    have h: "cand_username (?cs ! 1) = normalized (Some ''alice'')
               \<and> (\<forall>j<1. cand_username (?cs ! j) \<noteq> normalized (Some ''alice''))"
      by (simp add: normalized_def)
    from t [of "''Example''" "Some ''alice''", THEN conjunct2, rule_format,
            THEN conjunct2, rule_format, OF l i h]
    show ?thesis by simp
  qed
  from a 1 2 3 show ?thesis by simp
qed

section \<open>The otpauth URL\<close>

text \<open>
  C6. \<open>construct_otp_url\<close> on the secret \<open>ABCD EFGH-1234\<close> and the label \<open>My Login\<close>
  returns \<open>otpauth://totp/My%20Login?secret=ABCDEFGH1234&issuer=BitwardenMigration\<close>.
\<close>

theorem construct_otp_url_example:
  "construct_otp_url ''ABCD EFGH-1234'' ''My Login''
     = ''otpauth://totp/My%20Login?secret=ABCDEFGH1234&issuer=BitwardenMigration''"
  by code_simp

text \<open>
  C3, as amended. For a secret that begins, once its surrounding whitespace is trimmed and
  letter case is ignored, with \<open>otpauth://\<close>, \<open>construct_otp_url\<close> returns the trimmed
  secret, for any label; that is the input string itself exactly when the input has no
  whitespace at either end.
\<close>

theorem construct_otp_url_passthrough:
  assumes "prefix ''otpauth://'' (py_lower (py_strip secret))"
  shows "construct_otp_url secret label = py_strip secret
         \<and> (construct_otp_url secret label = secret
              \<longleftrightarrow> \<not> isspace (hd secret) \<and> \<not> isspace (last secret))"
proof -
  have r: "construct_otp_url secret label = py_strip secret"
    using assms by (simp add: construct_otp_url_def)
  have ne: "py_strip secret \<noteq> []" using assms by (auto simp: py_lower_def)
  have "py_strip secret = secret \<longleftrightarrow> \<not> isspace (hd secret) \<and> \<not> isspace (last secret)"
  proof
    assume e: "py_strip secret = secret"
    from strip_ends [of secret] ne show "\<not> isspace (hd secret) \<and> \<not> isspace (last secret)"
      unfolding e by simp
  next
    assume "\<not> isspace (hd secret) \<and> \<not> isspace (last secret)"
    then show "py_strip secret = secret" by (simp add: strip_fix)
  qed
  with r show ?thesis by simp
qed

theorem construct_otp_url_passthrough_witness:
  "prefix ''otpauth://'' (py_lower (py_strip '' OtpAuth://totp/x?secret=AB ''))
   \<and> construct_otp_url '' OtpAuth://totp/x?secret=AB '' ''My Login'' = ''OtpAuth://totp/x?secret=AB''"
proof -
  have h: "prefix ''otpauth://'' (py_lower (py_strip '' OtpAuth://totp/x?secret=AB ''))"
    by code_simp
  have e: "py_strip '' OtpAuth://totp/x?secret=AB '' = ''OtpAuth://totp/x?secret=AB''"
    by code_simp
  from construct_otp_url_passthrough [OF h, of "''My Login''"] e h show ?thesis by simp
qed

text \<open>
  The claim C3 as it is written ("returns the original input string") fails for a secret
  with a leading space: the value returned has lost it.
\<close>

theorem construct_otp_url_passthrough_counterexample:
  "prefix ''otpauth://'' (py_lower (py_strip '' otpauth://totp/x?secret=AB''))
   \<and> construct_otp_url '' otpauth://totp/x?secret=AB'' ''My Login'' \<noteq> '' otpauth://totp/x?secret=AB''"
  by code_simp

text \<open>
  C7. \<open>construct_otp_url\<close> is idempotent: applying it to its own result, with the same
  label, gives that result again, because every result begins with \<open>otpauth://\<close> (letter
  case ignored) and has no whitespace at either end, so that the second application returns
  it as it is.
\<close>

theorem construct_otp_url_idempotent:
  "construct_otp_url (construct_otp_url s l) l = construct_otp_url s l
     \<and> prefix ''otpauth://'' (py_lower (construct_otp_url s l))"
proof (cases "prefix ''otpauth://'' (py_lower (py_strip s))")
  case True
  then have r: "construct_otp_url s l = py_strip s" by (simp add: construct_otp_url_def)
  have "construct_otp_url (py_strip s) l = py_strip s"
    using True by (simp add: construct_otp_url_def strip_idem)
  with r True show ?thesis by simp
next
  case False
  define x where "x = quote l @ ''?secret=''
                        @ py_replace (CHR ''-'') [] (py_replace (CHR '' '') [] (py_strip s))"
  have r: "construct_otp_url s l = ''otpauth://totp/'' @ x @ ''&issuer=BitwardenMigration''"
    using False by (simp add: construct_otp_url_def x_def Let_def)
  have p: "prefix ''otpauth://''
             (py_lower (''otpauth://totp/'' @ (x @ ''&issuer=BitwardenMigration'')))"
    by (rule built_url_scheme)
  have "construct_otp_url (''otpauth://totp/'' @ x @ ''&issuer=BitwardenMigration'') l
          = ''otpauth://totp/'' @ x @ ''&issuer=BitwardenMigration''"
    unfolding construct_otp_url_def built_url_fixed Let_def using p by simp
  with r p show ?thesis by simp
qed

theorem construct_otp_url_idempotent_witness:
  "construct_otp_url (construct_otp_url ''ABCD EFGH-1234'' ''My Login'') ''My Login''
     = ''otpauth://totp/My%20Login?secret=ABCDEFGH1234&issuer=BitwardenMigration''"
proof -
  have e: "construct_otp_url ''ABCD EFGH-1234'' ''My Login''
     = ''otpauth://totp/My%20Login?secret=ABCDEFGH1234&issuer=BitwardenMigration''"
    by code_simp
  from construct_otp_url_idempotent [of "''ABCD EFGH-1234''" "''My Login''"]
  have "construct_otp_url (construct_otp_url ''ABCD EFGH-1234'' ''My Login'') ''My Login''
          = construct_otp_url ''ABCD EFGH-1234'' ''My Login''" by (rule conjunct1)
  with e show ?thesis by simp
qed

text \<open>
  C10, as amended. For a secret that does not begin (trimmed, letter case ignored) with
  \<open>otpauth://\<close>, \<open>construct_otp_url\<close> trims the whitespace around the secret and then
  removes its space and hyphen characters, and nothing else: every other character of the
  trimmed secret stands in the query string of the result as it is, in its place and not
  escaped. Only the label is percent-encoded.
\<close>

theorem construct_otp_url_secret_verbatim:
  assumes "\<not> prefix ''otpauth://'' (py_lower (py_strip secret))"
  shows "construct_otp_url secret label
           = ''otpauth://totp/'' @ quote label @ ''?secret=''
               @ filter (\<lambda>c. c \<noteq> CHR '' '' \<and> c \<noteq> CHR ''-'') (py_strip secret)
               @ ''&issuer=BitwardenMigration''"
  using assms by (simp add: construct_otp_url_def Let_def replace_is_filter)

theorem construct_otp_url_secret_verbatim_witness:
  "\<not> prefix ''otpauth://'' (py_lower (py_strip ''a&b=c?d#e-f g%''))
   \<and> construct_otp_url ''a&b=c?d#e-f g%'' ''a&b''
       = ''otpauth://totp/a%26b?secret=a&b=c?d#efg%&issuer=BitwardenMigration''"
proof -
  have h: "\<not> prefix ''otpauth://'' (py_lower (py_strip ''a&b=c?d#e-f g%''))" by code_simp
  have e: "py_strip ''a&b=c?d#e-f g%'' = ''a&b=c?d#e-f g%''" by code_simp
  have q: "quote ''a&b'' = ''a%26b''" by code_simp
  from construct_otp_url_secret_verbatim [OF h, of "''a&b''"] h show ?thesis
    by (simp add: e q)
qed

text \<open>
  The claim C10 as it is written ("removes only space and hyphen characters") fails for a
  secret that ends with a line feed: the line feed is a character of the secret, neither a
  space nor a hyphen, and the result does not contain it.
\<close>

theorem construct_otp_url_secret_verbatim_counterexample:
  "\<not> prefix ''otpauth://'' (py_lower (py_strip [CHR ''A'', CHR ''B'', CHR 0x0A]))
   \<and> CHR 0x0A \<in> set [CHR ''A'', CHR ''B'', CHR 0x0A]
   \<and> CHR 0x0A \<notin> set (construct_otp_url [CHR ''A'', CHR ''B'', CHR 0x0A] ''x'')
   \<and> construct_otp_url [CHR ''A'', CHR ''B'', CHR 0x0A] ''x''
        \<noteq> ''otpauth://totp/'' @ quote ''x'' @ ''?secret=''
            @ py_replace (CHR ''-'') [] (py_replace (CHR '' '') [] [CHR ''A'', CHR ''B'', CHR 0x0A])
            @ ''&issuer=BitwardenMigration''"
  by code_simp

section \<open>The run\<close>

lemma alice_secret: "secret_of alice_item = Some ''ABCD EFGH-1234''"
  by (simp add: secret_of_def alice_item_def)

lemma alice_match: "find_match (name alice_item) (username_of alice_item) vault1 = Some ''X1''"
  by (simp add: find_match_def alice_item_def username_of_def vault1_def)

lemma bob_secret: "secret_of bob_item = Some ''JBSWY3DP''"
  by (simp add: secret_of_def bob_item_def)

lemma bob_miss: "find_match (name bob_item) (username_of bob_item) vault1 = None"
  by (simp add: find_match_def bob_item_def username_of_def vault1_def)

lemma step_dry:
  assumes "secret_of item = Some s"
    and "find_match (name item) (username_of item) lk = Some i" and "i \<noteq> []"
  shows "process_item True c run lk item st =
           Inr (say ((if c then ''    [DRY RUN] Would DELETE TOTP for: ''
                      else ''    [DRY RUN] Would update: '') @ who (name item) (username_of item))
                  (st\<lparr>found_in_bw := found_in_bw st + 1, matched := matched st + 1\<rparr>))"
  using assms by (simp add: process_item_def Let_def)

lemma step_found:
  "secret_of item = Some s \<Longrightarrow>
     found_in_bw (last_state (process_item d c run lk item st)) = found_in_bw st + 1"
  by (simp add: process_item_def Let_def say_def last_state_def
           split: option.splits proc_result.splits)

lemma step_hit:
  "secret_of item = Some s \<Longrightarrow> find_match (name item) (username_of item) lk = Some i \<Longrightarrow> i \<noteq> []
     \<Longrightarrow> matched (last_state (process_item d c run lk item st)) = matched st + 1
         \<and> orphans (last_state (process_item d c run lk item st)) = orphans st"
  by (simp add: process_item_def Let_def say_def last_state_def
           split: option.splits proc_result.splits)

lemma step_miss:
  "secret_of item = Some s \<Longrightarrow>
     find_match (name item) (username_of item) lk = None
       \<or> find_match (name item) (username_of item) lk = Some []
     \<Longrightarrow> process_item d c run lk item st
           = Inr (st\<lparr>found_in_bw := found_in_bw st + 1,
                     orphans := orphans st @ [who (name item) (username_of item)]\<rparr>)"
  by (auto simp add: process_item_def Let_def)

lemma step_skip: "secret_of item = None \<Longrightarrow> process_item d c run lk item st = Inr st"
  by (simp add: process_item_def)

lemma step_balance:
  assumes "found_in_bw st = matched st + length (orphans st)"
  shows "found_in_bw (last_state (process_item d c run lk item st))
           = matched (last_state (process_item d c run lk item st))
             + length (orphans (last_state (process_item d c run lk item st)))"
proof (cases "secret_of item")
  case None
  then show ?thesis using assms by (simp add: step_skip last_state_def)
next
  case (Some s)
  note f = step_found [OF Some, of d c run lk st]
  show ?thesis
  proof (cases "\<exists>i. find_match (name item) (username_of item) lk = Some i \<and> i \<noteq> []")
    case True
    then obtain i where "find_match (name item) (username_of item) lk = Some i" "i \<noteq> []"
      by blast
    from step_hit [OF Some this, of d c run st] f assms show ?thesis by simp
  next
    case False
    then have "find_match (name item) (username_of item) lk = None
                 \<or> find_match (name item) (username_of item) lk = Some []"
      by (cases "find_match (name item) (username_of item) lk") auto
    from step_miss [OF Some this, of d c run st] assms show ?thesis
      by (simp add: last_state_def)
  qed
qed

lemma run_balance:
  "found_in_bw st = matched st + length (orphans st) \<Longrightarrow>
     found_in_bw (last_state (run_items d c run lk items st))
       = matched (last_state (run_items d c run lk items st))
         + length (orphans (last_state (run_items d c run lk items st)))"
proof (induction items arbitrary: st)
  case Nil
  then show ?case by (simp add: last_state_def)
next
  case (Cons item rest)
  show ?case
  proof (cases "process_item d c run lk item st")
    case (Inl e)
    with step_balance [OF Cons.prems, of d c run lk item] show ?thesis by simp
  next
    case (Inr st')
    with step_balance [OF Cons.prems, of d c run lk item]
    have "found_in_bw st' = matched st' + length (orphans st')" by (simp add: last_state_def)
    from Cons.IH [OF this] Inr show ?thesis by simp
  qed
qed

text \<open>
  C2. In a dry run, in clear mode as in update mode, a matched record (one for which
  \<open>find_match\<close> gives an identifier that \<open>main\<close> accepts) issues no external command
  and leaves the success and failure counters as they were; one preview line is printed.
\<close>

theorem dry_run_no_effect:
  assumes "secret_of item = Some s"
    and "find_match (name item) (username_of item) lk = Some i" and "i \<noteq> []"
  shows "\<exists>st'. process_item True c run lk item st = Inr st'
           \<and> cmds st' = cmds st \<and> success st' = success st \<and> fail st' = fail st
           \<and> (\<exists>line. out st' = out st @ [line])"
  using step_dry [OF assms, of c run st] by (simp add: say_def)

theorem dry_run_no_effect_witness:
  "secret_of alice_item = Some ''ABCD EFGH-1234''
   \<and> find_match (name alice_item) (username_of alice_item) vault1 = Some ''X1''
   \<and> cmds (last_state (process_item True True op_succeeds vault1 alice_item (init_state []))) = []
   \<and> success (last_state (process_item True True op_succeeds vault1 alice_item (init_state []))) = 0
   \<and> fail (last_state (process_item True False op_succeeds vault1 alice_item (init_state []))) = 0
   \<and> cmds (last_state (process_item True False op_succeeds vault1 alice_item (init_state []))) = []"
proof -
  have n: "''X1'' \<noteq> []" by simp
  note t = dry_run_no_effect [where run = op_succeeds and st = "init_state []",
                              OF alice_secret alice_match n]
  have i: "cmds (init_state []) = [] \<and> success (init_state []) = 0 \<and> fail (init_state []) = 0"
    by (simp add: init_state_def)
  from t [of True] obtain st1 where
    1: "process_item True True op_succeeds vault1 alice_item (init_state []) = Inr st1"
       "cmds st1 = cmds (init_state [])" "success st1 = success (init_state [])" by blast
  from t [of False] obtain st2 where
    2: "process_item True False op_succeeds vault1 alice_item (init_state []) = Inr st2"
       "cmds st2 = cmds (init_state [])" "fail st2 = fail (init_state [])" by blast
  from 1 2 i alice_secret alice_match show ?thesis by (simp add: last_state_def)
qed

text \<open>
  C4. In a live run in clear mode, when the delete command of a matched record fails
  (\<open>CalledProcessError\<close>) and its error text contains \<open>field not found\<close>, neither the
  success counter nor the failure counter changes; when it fails with any other error text,
  the failure counter goes up by one and the success counter stays.
\<close>

theorem clear_failure_counting:
  assumes "secret_of item = Some s"
    and "find_match (name item) (username_of item) lk = Some i" and "i \<noteq> []"
    and "run (cmds st) (delete_cmd i) = CalledProcessError err"
  shows "\<exists>st'. process_item False True run lk item st = Inr st'
           \<and> cmds st' = cmds st @ [delete_cmd i]
           \<and> success st' = success st
           \<and> fail st' = (if \<exists>p q. err = p @ ''field not found'' @ q then fail st else fail st + 1)"
  using assms by (simp add: process_item_def Let_def say_def py_in_iff)

theorem clear_failure_counting_witness:
  "success (last_state (process_item False True (op_fails ''[ERROR] field not found in item'')
              vault1 alice_item (init_state []))) = 0
   \<and> fail (last_state (process_item False True (op_fails ''[ERROR] field not found in item'')
              vault1 alice_item (init_state []))) = 0
   \<and> success (last_state (process_item False True (op_fails ''[ERROR] not signed in'')
              vault1 alice_item (init_state []))) = 0
   \<and> fail (last_state (process_item False True (op_fails ''[ERROR] not signed in'')
              vault1 alice_item (init_state []))) = 1"
proof -
  have n: "''X1'' \<noteq> []" by simp
  have i: "cmds (init_state []) = [] \<and> success (init_state []) = 0 \<and> fail (init_state []) = 0"
    by (simp add: init_state_def)
  have f1: "op_fails ''[ERROR] field not found in item'' (cmds (init_state [])) (delete_cmd ''X1'')
              = CalledProcessError ''[ERROR] field not found in item''" by (simp add: op_fails_def)
  have f2: "op_fails ''[ERROR] not signed in'' (cmds (init_state [])) (delete_cmd ''X1'')
              = CalledProcessError ''[ERROR] not signed in''" by (simp add: op_fails_def)
  have y: "\<exists>p q. ''[ERROR] field not found in item'' = p @ ''field not found'' @ q"
    unfolding py_in_iff [symmetric] by code_simp
  have z: "\<not> (\<exists>p q. ''[ERROR] not signed in'' = p @ ''field not found'' @ q)"
    unfolding py_in_iff [symmetric] by code_simp
  from clear_failure_counting [where run = "op_fails ''[ERROR] field not found in item''"
        and st = "init_state []", OF alice_secret alice_match n f1] i y
  obtain st1 where 1:
    "process_item False True (op_fails ''[ERROR] field not found in item'') vault1 alice_item
       (init_state []) = Inr st1" "success st1 = 0" "fail st1 = 0"
    by auto
  from clear_failure_counting [where run = "op_fails ''[ERROR] not signed in''"
        and st = "init_state []", OF alice_secret alice_match n f2] i z
  obtain st2 where 2:
    "process_item False True (op_fails ''[ERROR] not signed in'') vault1 alice_item
       (init_state []) = Inr st2" "success st2 = 0" "fail st2 = 1"
    by auto
  from 1 2 show ?thesis by (simp add: last_state_def)
qed

text \<open>
  Counting over the run. When every identifier in the lookup is non-empty, a record that
  carries a secret adds one to \<open>found_in_bw\<close> and then either adds one to \<open>matched\<close>,
  when \<open>find_match\<close> returns an identifier, or is appended once to the orphans with no
  other change of the state, when \<open>find_match\<close> returns \<open>None\<close>. A run that reaches the
  end of the items has then counted every such record once, a dry run always reaches the
  end, and in every state the loop stops in, also by an exception, \<open>found_in_bw\<close> is
  \<open>matched\<close> plus the number of orphans (\<open>run_balance\<close>).
\<close>

lemma scan_id_member:
  "scan_candidates cs t = Some i \<Longrightarrow> \<exists>c\<in>set cs. cand_id c = i"
  by (induction cs) (auto split: if_splits)

lemma find_match_id_nonempty:
  assumes "ids_nonempty lk" and "find_match title u lk = Some i"
  shows "i \<noteq> []"
proof -
  from assms(2) obtain cs t where l: "lk title = Some cs" and s: "scan_candidates cs t = Some i"
    by (auto simp: find_match_def Let_def split: option.splits)
  from scan_id_member [OF s] obtain c where "c \<in> set cs" "cand_id c = i" by blast
  with assms(1) l show ?thesis by (auto simp: ids_nonempty_def)
qed

lemma record_counted_once:
  assumes "ids_nonempty lk" and "secret_of item = Some s"
  shows "found_in_bw (last_state (process_item d c run lk item st)) = found_in_bw st + 1
         \<and> (find_match (name item) (username_of item) lk \<noteq> None \<longrightarrow>
               matched (last_state (process_item d c run lk item st)) = matched st + 1
               \<and> orphans (last_state (process_item d c run lk item st)) = orphans st)
         \<and> (find_match (name item) (username_of item) lk = None \<longrightarrow>
               process_item d c run lk item st
                 = Inr (st\<lparr>found_in_bw := found_in_bw st + 1,
                           orphans := orphans st @ [who (name item) (username_of item)]\<rparr>))"
proof (intro conjI impI)
  show "found_in_bw (last_state (process_item d c run lk item st)) = found_in_bw st + 1"
    using assms(2) by (rule step_found)
  {
    assume "find_match (name item) (username_of item) lk \<noteq> None"
    then obtain i where i: "find_match (name item) (username_of item) lk = Some i" by blast
    with assms(1) have "i \<noteq> []" by (rule find_match_id_nonempty)
    from step_hit [OF assms(2) i this]
    show "matched (last_state (process_item d c run lk item st)) = matched st + 1"
      and "orphans (last_state (process_item d c run lk item st)) = orphans st" by simp_all
  }
  {
    assume "find_match (name item) (username_of item) lk = None"
    then have "find_match (name item) (username_of item) lk = None
                 \<or> find_match (name item) (username_of item) lk = Some []" by simp
    with assms(2) show "process_item d c run lk item st
                 = Inr (st\<lparr>found_in_bw := found_in_bw st + 1,
                           orphans := orphans st @ [who (name item) (username_of item)]\<rparr>)"
      by (rule step_miss)
  }
qed

lemma run_counts:
  assumes "ids_nonempty lk"
  shows "run_items d c run lk items st = Inr st' \<Longrightarrow>
     found_in_bw st' = found_in_bw st + length (filter has_secret items)
     \<and> matched st' = matched st
          + length (filter (\<lambda>item. has_secret item \<and> has_match lk item) items)
     \<and> orphans st' = orphans st
          @ map (\<lambda>item. who (name item) (username_of item))
              (filter (\<lambda>item. has_secret item \<and> \<not> has_match lk item) items)"
proof (induction items arbitrary: st)
  case Nil
  then show ?case by simp
next
  case (Cons item rest)
  from Cons.prems obtain st1 where 1: "process_item d c run lk item st = Inr st1"
    and 2: "run_items d c run lk rest st1 = Inr st'"
    by (auto split: sum.splits)
  note ih = Cons.IH [OF 2]
  show ?case
  proof (cases "secret_of item")
    case None
    with 1 have "st1 = st" by (simp add: step_skip)
    with ih None show ?thesis by (simp add: has_secret_def)
  next
    case (Some s)
    note r = record_counted_once [OF assms Some, of d c run st]
    show ?thesis
    proof (cases "find_match (name item) (username_of item) lk = None")
      case True
      with r 1 have "st1 = st\<lparr>found_in_bw := found_in_bw st + 1,
                           orphans := orphans st @ [who (name item) (username_of item)]\<rparr>"
        by simp
      with ih Some True show ?thesis by (simp add: has_secret_def has_match_def)
    next
      case False
      with r 1 have "found_in_bw st1 = found_in_bw st + 1" "matched st1 = matched st + 1"
        "orphans st1 = orphans st" by (simp_all add: last_state_def)
      with ih Some False show ?thesis by (simp add: has_secret_def has_match_def)
    qed
  qed
qed

lemma dry_run_completes:
  "\<exists>st'. run_items True c run lk items st = Inr st'"
proof (induction items arbitrary: st)
  case Nil
  then show ?case by simp
next
  case (Cons item rest)
  have "\<exists>st1. process_item True c run lk item st = Inr st1"
    by (simp add: process_item_def Let_def split: option.splits)
  then obtain st1 where "process_item True c run lk item st = Inr st1" by blast
  with Cons.IH [of st1] show ?case by simp
qed


text \<open>
  C9. An item with no login, or whose login has no \<open>totp\<close> or an empty one, is skipped:
  the state after it is the state before it (no counter, no orphan, no command, no
  output), whatever the lookup holds, and the run goes on with the next item.
\<close>

theorem skipped_without_secret:
  assumes "login item = None \<or> (\<exists>lg. login item = Some lg \<and> (totp lg = None \<or> totp lg = Some []))"
  shows "process_item d c run lk item st = Inr st
         \<and> run_items d c run lk (item # rest) st = run_items d c run lk rest st"
proof -
  from assms have "secret_of item = None" by (auto simp: secret_of_def)
  then have "process_item d c run lk item st = Inr st" by (rule step_skip)
  then show ?thesis by simp
qed

theorem skipped_without_secret_witness:
  "process_item False False op_succeeds vault1 note_item (init_state []) = Inr (init_state [])
   \<and> process_item False False op_succeeds vault1 plain_item (init_state []) = Inr (init_state [])
   \<and> process_item False True op_succeeds vault1 blank_item (init_state []) = Inr (init_state [])"
proof -
  have 1: "login note_item = None
             \<or> (\<exists>lg. login note_item = Some lg \<and> (totp lg = None \<or> totp lg = Some []))"
    by (simp add: note_item_def)
  have 2: "login plain_item = None
             \<or> (\<exists>lg. login plain_item = Some lg \<and> (totp lg = None \<or> totp lg = Some []))"
    by (simp add: plain_item_def)
  have 3: "login blank_item = None
             \<or> (\<exists>lg. login blank_item = Some lg \<and> (totp lg = None \<or> totp lg = Some []))"
    by (simp add: blank_item_def)
  from skipped_without_secret [OF 1, THEN conjunct1] skipped_without_secret [OF 2, THEN conjunct1]
       skipped_without_secret [OF 3, THEN conjunct1]
  show ?thesis by simp
qed

text \<open>
  C8. In a live run nothing is sent to the vault before the operator has confirmed: when
  the answer typed, in lower case, is not \<open>yes\<close>, \<open>main\<close> exits having issued no
  external command at all (no query for the lookup, no mutation); and a live run that has
  issued any command has read an answer that is \<open>yes\<close> in lower case.
\<close>

theorem confirmation_gate:
  assumes "\<not> dry_run a"
  shows "(\<forall>confirm. stdin_line e = Some confirm \<and> py_lower confirm \<noteq> ''yes'' \<longrightarrow>
            cmds (snd (main a e)) = [] \<and> (\<exists>n. fst (main a e) = Exit n))
         \<and> (cmds (snd (main a e)) \<noteq> [] \<longrightarrow>
              (\<exists>confirm. stdin_line e = Some confirm \<and> py_lower confirm = ''yes''))"
  using assms by (auto simp add: main_def init_state_def split: option.splits)

theorem confirmation_gate_witness:
  "\<not> dry_run live_update
   \<and> stdin_line (operator_types ''No'') = Some ''No'' \<and> py_lower ''No'' \<noteq> ''yes''
   \<and> cmds (snd (main live_update (operator_types ''No''))) = []
   \<and> main live_update (operator_types ''No'') = (Exit 0, init_state [])
   \<and> py_lower ''YES'' = ''yes''
   \<and> cmds (snd (main live_update (operator_types ''YES'')))
       = [[''op'', ''--version''],
          [''op'', ''item'', ''list'', ''--vault'', ''Private'', ''--format'', ''json''],
          [''op'', ''item'', ''edit'', ''X1'',
           ''one-time password[otp]=otpauth://totp/Example?secret=ABCDEFGH1234&issuer=BitwardenMigration'']]"
proof -
  have d: "\<not> dry_run live_update" by (simp add: live_update_def)
  have s: "stdin_line (operator_types ''No'') = Some ''No''" by (simp add: operator_types_def)
  have l: "py_lower ''No'' \<noteq> ''yes''" by code_simp
  have y: "py_lower ''YES'' = ''yes''" by code_simp
  from confirmation_gate [OF d, of "operator_types ''No''", THEN conjunct1, rule_format, of "''No''"]
    s l
  have 1: "cmds (snd (main live_update (operator_types ''No''))) = []" by simp
  have 2: "main live_update (operator_types ''No'') = (Exit 0, init_state [])"
    using l by (simp add: main_def live_update_def operator_types_def every_path_def)
  have u: "construct_otp_url ''ABCD EFGH-1234'' ''Example''
             = ''otpauth://totp/Example?secret=ABCDEFGH1234&issuer=BitwardenMigration''"
    by code_simp
  have 3: "cmds (snd (main live_update (operator_types ''YES'')))
       = [[''op'', ''--version''],
          [''op'', ''item'', ''list'', ''--vault'', ''Private'', ''--format'', ''json''],
          [''op'', ''item'', ''edit'', ''X1'',
           ''one-time password[otp]=otpauth://totp/Example?secret=ABCDEFGH1234&issuer=BitwardenMigration'']]"
    using y by (simp add: main_def live_update_def operator_types_def every_path_def migrate_def
          get_op_items_def op_succeeds_def vault1_json_def export1_def build_lookup_def
          add_item_def OP_VAULT_NAME_def list_cmd_def process_item_def secret_of_def
          alice_item_def username_of_def find_match_def init_state_def say_def update_cmd_def u)
  from d s l 1 2 y 3 show ?thesis by simp
qed

end
